theory Spec2Isabelle
  imports Main
begin

section \<open>Python values, exceptions and the observable world\<close>

text \<open>
  Plain data that crosses the proxy: call arguments, dictionary keys and the payload of
  results such as \<open>{"ok": 1}\<close>.
\<close>

datatype lit = LNone | LBool bool | LInt int | LStr string | LDict "(string \<times> lit) list"

text \<open>
  Exceptions are values. \<open>AutoReconnect\<close> is \<open>pymongo.errors.AutoReconnect\<close>, the only
  kind the \<open>except\<close> clause of the retry loop catches; the others stand for everything else
  an attribute access, a subscript, a call or the driver can raise.
\<close>

datatype exn =
    AutoReconnect string
  | OperationFailure string
  | AttributeError string
  | KeyError lit
  | TypeError string
  | NameError string

fun is_AutoReconnect :: "exn \<Rightarrow> bool" where
  "is_AutoReconnect (AutoReconnect m) = True"
| "is_AutoReconnect e = False"

text \<open>\<open>*args, **kwargs\<close>: positional and keyword arguments, forwarded as they are.\<close>

type_synonym call_args = "lit list \<times> (string \<times> lit) list"

text \<open>
  An object of the wrapped client library: opaque, with named members (\<open>getattr\<close>),
  subscript entries (\<open>obj[key]\<close>), possibly a \<open>__call__\<close>, and a truth value. A call runs
  in the external state \<open>'s\<close> (the server, the network, a mock's counters), returns or
  raises, and leaves a new external state.
\<close>

datatype 's pyval =
  PyObj (payload: lit)
        (members: "(string \<times> 's pyval) list")
        (entries: "(lit \<times> 's pyval) list")
        (behaviour: "(call_args \<Rightarrow> 's \<Rightarrow> (exn + 's pyval) \<times> 's) option")
        (truthy: bool)

text \<open>
  What the retry layer itself does to the world: the warnings it hands to \<open>logger\<close> and
  the delays it passes to \<open>time.sleep\<close>, both in order, beside the external state; and
  the one sequence of all it does, in the order in which it does it: a call of the wrapped
  operation, a warning, a sleep.
\<close>

datatype event = Called | Warned string | Slept nat

record 's world =
  warnings :: "string list"
  sleeps :: "nat list"
  trace :: "event list"
  ext :: 's

definition logger_warning :: "string \<Rightarrow> 's world \<Rightarrow> 's world" where
  "logger_warning msg w = w\<lparr>warnings := warnings w @ [msg], trace := trace w @ [Warned msg]\<rparr>"

definition time_sleep :: "nat \<Rightarrow> 's world \<Rightarrow> 's world" where
  "time_sleep d w = w\<lparr>sleeps := sleeps w @ [d], trace := trace w @ [Slept d]\<rparr>"

text \<open>
  Running a call of an operation, which is a computation of the external state, inside
  the world.
\<close>

definition run :: "('s \<Rightarrow> 'r \<times> 's) \<Rightarrow> 's world \<Rightarrow> 'r \<times> 's world" where
  "run f w = (case f (ext w) of (r, s') \<Rightarrow> (r, w\<lparr>trace := trace w @ [Called], ext := s'\<rparr>))"

section \<open>The object protocol of the wrapped library\<close>

definition hasattr_call :: "'s pyval \<Rightarrow> bool" where
  \<comment> \<open>\<open>hasattr(x, '__call__')\<close>\<close>
  "hasattr_call x = (behaviour x \<noteq> None)"

definition py_dir :: "'s pyval \<Rightarrow> string list" where
  \<comment> \<open>\<open>dir(obj)\<close>: the member names, each once\<close>
  "py_dir obj = remdups (map fst (members obj))"

definition py_getattr :: "'s pyval \<Rightarrow> string \<Rightarrow> exn + 's pyval" where
  "py_getattr obj name =
     (case map_of (members obj) name of
        None \<Rightarrow> Inl (AttributeError name)
      | Some v \<Rightarrow> Inr v)"

definition py_getitem :: "'s pyval \<Rightarrow> lit \<Rightarrow> exn + 's pyval" where
  "py_getitem obj key =
     (case map_of (entries obj) key of
        None \<Rightarrow> Inl (KeyError key)
      | Some v \<Rightarrow> Inr v)"

definition py_call :: "'s pyval \<Rightarrow> call_args \<Rightarrow> 's \<Rightarrow> (exn + 's pyval) \<times> 's" where
  "py_call obj a s =
     (case behaviour obj of
        None \<Rightarrow> (Inl (TypeError ''object is not callable''), s)
      | Some f \<Rightarrow> f a s)"

definition startswith :: "string \<Rightarrow> string \<Rightarrow> bool" where
  "startswith s p = (take (length p) s = p)"

section \<open>get_methods and EXECUTABLE_MONGO_METHODS\<close>

text \<open>
  The generator expression of \<open>get_methods\<close>: the inner loop over \<open>dir(obj)\<close> with its
  filter (\<open>and\<close> short-circuits, so \<open>getattr\<close> runs on public names only), the outer loop
  over \<open>objs\<close>, and \<open>set(...)\<close> around both. An exception of \<open>getattr\<close> would leave the
  generator.
\<close>

fun public_callables :: "'s pyval \<Rightarrow> string list \<Rightarrow> exn + string list" where
  "public_callables obj [] = Inr []"
| "public_callables obj (attr # rest) =
     (if \<not> startswith attr ''_'' then
        (case py_getattr obj attr of
           Inl e \<Rightarrow> Inl e
         | Inr v \<Rightarrow>
             if hasattr_call v
             then (case public_callables obj rest of
                     Inl e \<Rightarrow> Inl e
                   | Inr names \<Rightarrow> Inr (attr # names))
             else public_callables obj rest)
      else public_callables obj rest)"

fun collect_methods :: "'s pyval list \<Rightarrow> exn + string list" where
  "collect_methods [] = Inr []"
| "collect_methods (obj # objs) =
     (case public_callables obj (py_dir obj) of
        Inl e \<Rightarrow> Inl e
      | Inr names \<Rightarrow>
          (case collect_methods objs of
             Inl e \<Rightarrow> Inl e
           | Inr others \<Rightarrow> Inr (names @ others)))"

definition get_methods :: "'s pyval list \<Rightarrow> exn + string set" where
  "get_methods objs =
     (case collect_methods objs of
        Inl e \<Rightarrow> Inl e
      | Inr names \<Rightarrow> Inr (set names))"

text \<open>The filter of \<open>get_methods\<close> as a predicate on the names of one object.\<close>

definition public_callable :: "'s pyval \<Rightarrow> string \<Rightarrow> bool" where
  "public_callable obj name =
     (name \<in> set (py_dir obj) \<and> \<not> startswith name ''_'' \<and>
      (case py_getattr obj name of Inl e \<Rightarrow> False | Inr v \<Rightarrow> hasattr_call v))"

text \<open>
  The module constant is \<open>get_methods\<close> of three objects of pymongo, which is not part of
  this repository: they are parameters here, and the functions that read the constant take
  its value, a set of names, as their first argument.
\<close>

definition EXECUTABLE_MONGO_METHODS ::
    "'s pyval \<Rightarrow> 's pyval \<Rightarrow> 's pyval \<Rightarrow> exn + string set" where
  "EXECUTABLE_MONGO_METHODS collection connection pymongo =
     get_methods [collection, connection, pymongo]"

section \<open>safe_mongocall\<close>

fun str_of_nat :: "nat \<Rightarrow> string" where
  "str_of_nat n =
     (if n < 10 then [''0123456789'' ! n]
      else str_of_nat (n div 10) @ [''0123456789'' ! (n mod 10)])"

declare str_of_nat.simps [simp del]

definition retry_warning :: "nat \<Rightarrow> string" where
  \<comment> \<open>\<open>'AutoReconnecting, try %d' % i\<close>\<close>
  "retry_warning i = ''AutoReconnecting, try '' @ str_of_nat i"

definition py_range :: "nat \<Rightarrow> nat list" where
  "py_range n = [0..<n]"

text \<open>
  The body of \<open>_safe_mongocall\<close>. \<open>attempts\<close> is the \<open>for\<close> loop over the indices still to
  come: a call that returns leaves the loop with its result, one that raises
  \<open>AutoReconnect\<close> is logged and slept on and the loop goes on, any other exception leaves
  the function. After the last index comes the call outside \<open>try\<close>.
\<close>

fun attempts :: "nat list \<Rightarrow> (call_args \<Rightarrow> 's \<Rightarrow> (exn + 'r) \<times> 's) \<Rightarrow> call_args
                 \<Rightarrow> 's world \<Rightarrow> (exn + 'r) \<times> 's world" where
  "attempts [] call a w = run (call a) w"
| "attempts (i # rest) call a w =
     (case run (call a) w of
        (Inr r, w') \<Rightarrow> (Inr r, w')
      | (Inl e, w') \<Rightarrow>
          if is_AutoReconnect e
          then attempts rest call a (time_sleep (2 ^ i) (logger_warning (retry_warning i) w'))
          else (Inl e, w'))"

definition safe_mongocall :: "(call_args \<Rightarrow> 's \<Rightarrow> (exn + 'r) \<times> 's) \<Rightarrow> call_args
                 \<Rightarrow> 's world \<Rightarrow> (exn + 'r) \<times> 's world" where
  "safe_mongocall call a w = attempts (py_range 4) call a w"

section \<open>Executable and ReconnectProxy\<close>

text \<open>
  What application code can hold: an object of the library as it is, an \<open>Executable\<close>
  around a method, or a \<open>ReconnectProxy\<close> around a connection.
\<close>

datatype 's pyref =
    Raw "'s pyval"
  | Executable "'s pyval"
  | ReconnectProxy "'s pyval"

text \<open>
  Calling a global name of the module with one argument. The module binds two classes;
  any other class name is unbound when the call is evaluated.
\<close>

definition module_classes :: "(string \<times> ('s pyval \<Rightarrow> 's pyref)) list" where
  "module_classes = [(''Executable'', Executable), (''ReconnectProxy'', ReconnectProxy)]"

definition instantiate :: "string \<Rightarrow> 's pyval \<Rightarrow> exn + 's pyref" where
  "instantiate name x =
     (case map_of module_classes name of
        None \<Rightarrow> Inl (NameError name)
      | Some cls \<Rightarrow> Inr (cls x))"

definition Executable_call :: "'s pyval \<Rightarrow> call_args \<Rightarrow> 's world \<Rightarrow> (exn + 's pyval) \<times> 's world" where
  \<comment> \<open>\<open>__call__\<close> under the \<open>@safe_mongocall\<close> decorator\<close>
  "Executable_call meth a w = safe_mongocall (py_call meth) a w"

definition ReconnectProxy_getitem :: "'s pyval \<Rightarrow> lit \<Rightarrow> exn + 's pyref" where
  "ReconnectProxy_getitem c key =
     (case py_getitem c key of
        Inl e \<Rightarrow> Inl e
      | Inr item \<Rightarrow>
          if hasattr_call item then instantiate ''MongoProxy'' item
          else Inr (Raw item))"

definition ReconnectProxy_getattr :: "string set \<Rightarrow> 's pyval \<Rightarrow> string \<Rightarrow> exn + 's pyref" where
  "ReconnectProxy_getattr methods c key =
     (case py_getattr c key of
        Inl e \<Rightarrow> Inl e
      | Inr attr \<Rightarrow>
          if hasattr_call attr \<and> key \<in> methods then instantiate ''Executable'' attr
          else Inr (Raw attr))"

definition ReconnectProxy_call :: "'s pyval \<Rightarrow> call_args \<Rightarrow> 's world \<Rightarrow> (exn + 's pyval) \<times> 's world" where
  "ReconnectProxy_call c a w = run (py_call c a) w"

definition ReconnectProxy_bool :: "'s pyval \<Rightarrow> bool" where
  "ReconnectProxy_bool c = True"

text \<open>
  The operations of the language on what application code holds. \<open>bool(x)\<close> calls the
  \<open>__bool__\<close> of the class of \<open>x\<close>; a class with neither \<open>__bool__\<close> nor \<open>__len__\<close>, as
  \<open>Executable\<close>, is true. \<open>x(*args, **kwargs)\<close> calls the \<open>__call__\<close> of the class.
\<close>

definition pyref_bool :: "'s pyref \<Rightarrow> bool" where
  "pyref_bool x =
     (case x of
        Raw v \<Rightarrow> truthy v
      | Executable m \<Rightarrow> True
      | ReconnectProxy c \<Rightarrow> ReconnectProxy_bool c)"

definition pyref_call :: "'s pyref \<Rightarrow> call_args \<Rightarrow> 's world \<Rightarrow> (exn + 's pyval) \<times> 's world" where
  "pyref_call x a w =
     (case x of
        Raw v \<Rightarrow> run (py_call v a) w
      | Executable m \<Rightarrow> Executable_call m a w
      | ReconnectProxy c \<Rightarrow> ReconnectProxy_call c a w)"


subsection \<open>Attribute access\<close>

text \<open>
  Both classes rely on the default lookup of the language: the attributes of the instance
  (\<open>self.method\<close>, \<open>self.conn\<close>), then the names bound in the class body, then the names
  every object has from the interpreter (\<open>__class__\<close>, \<open>__dict__\<close>, \<open>__eq__\<close>, ...; their
  list depends on the interpreter and is the parameter \<open>builtin\<close>). Only when all three
  miss is \<open>__getattr__\<close> called, for a class that defines it; otherwise the access raises
  \<open>AttributeError\<close>.
\<close>

datatype 's attribute =
    Value "'s pyref"
  | Class_member string
  | Builtin_member string

definition Executable_members :: "string list" where
  "Executable_members =
     [''__doc__'', ''__init__'', ''__call__'', ''__dir__'', ''__str__'', ''__repr__'']"

definition ReconnectProxy_members :: "string list" where
  "ReconnectProxy_members =
     [''__doc__'', ''__init__'', ''__getitem__'', ''__getattr__'', ''__call__'', ''__dir__'',
      ''__str__'', ''__repr__'', ''__bool__'']"

definition default_lookup ::
    "string list \<Rightarrow> string list \<Rightarrow> (string \<times> 's pyval) list \<Rightarrow> string \<Rightarrow> 's attribute option" where
  "default_lookup builtin cls inst name =
     (case map_of inst name of
        Some v \<Rightarrow> Some (Value (Raw v))
      | None \<Rightarrow>
          if name \<in> set cls then Some (Class_member name)
          else if name \<in> set builtin then Some (Builtin_member name)
          else None)"

definition pyref_getattr ::
    "string list \<Rightarrow> string set \<Rightarrow> 's pyref \<Rightarrow> string \<Rightarrow> exn + 's attribute" where
  "pyref_getattr builtin methods x name =
     (case x of
        Raw v \<Rightarrow>
          (case py_getattr v name of
             Inl e \<Rightarrow> Inl e
           | Inr y \<Rightarrow> Inr (Value (Raw y)))
      | Executable m \<Rightarrow>
          (case default_lookup builtin Executable_members [(''method'', m)] name of
             Some y \<Rightarrow> Inr y
           | None \<Rightarrow> Inl (AttributeError name))
      | ReconnectProxy c \<Rightarrow>
          (case default_lookup builtin ReconnectProxy_members [(''conn'', c)] name of
             Some y \<Rightarrow> Inr y
           | None \<Rightarrow>
               (case ReconnectProxy_getattr methods c name of
                  Inl e \<Rightarrow> Inl e
                | Inr y \<Rightarrow> Inr (Value y))))"

subsection \<open>Object identity\<close>





section \<open>Operations observed over successive calls\<close>

text \<open>
  The external state after \<open>n\<close> calls of an operation with the same arguments, what the
  call number \<open>n\<close> (counted from 0) returns or raises, and whether that is the error the
  retry loop catches.
\<close>

fun state_after :: "(call_args \<Rightarrow> 's \<Rightarrow> (exn + 'r) \<times> 's) \<Rightarrow> call_args \<Rightarrow> nat \<Rightarrow> 's \<Rightarrow> 's" where
  "state_after call a 0 s = s"
| "state_after call a (Suc n) s = state_after call a n (snd (call a s))"

definition outcome :: "(call_args \<Rightarrow> 's \<Rightarrow> (exn + 'r) \<times> 's) \<Rightarrow> call_args \<Rightarrow> nat \<Rightarrow> 's \<Rightarrow> exn + 'r" where
  "outcome call a n s = fst (call a (state_after call a n s))"

fun transient :: "exn + 'r \<Rightarrow> bool" where
  "transient (Inl e) = is_AutoReconnect e"
| "transient (Inr r) = False"

section \<open>Mock objects\<close>

text \<open>
  An operation that plays a script: call number \<open>n\<close> yields the \<open>n\<close>-th outcome of the
  list, every later call the final one; the external state counts the calls.
\<close>

definition scripted :: "(exn + 'r) list \<Rightarrow> exn + 'r \<Rightarrow> call_args \<Rightarrow> nat \<Rightarrow> (exn + 'r) \<times> nat" where
  "scripted outcomes final a n = (if n < length outcomes then outcomes ! n else final, Suc n)"

definition plain :: "lit \<Rightarrow> bool \<Rightarrow> nat pyval" where
  "plain v t = PyObj v [] [] None t"

definition ok_result :: "nat pyval" where
  "ok_result = plain (LDict [(''ok'', LInt 1)]) True"

definition reconnecting :: "exn + nat pyval" where
  "reconnecting = Inl (AutoReconnect ''not master'')"

definition mock_find :: "nat pyval" where
  \<comment> \<open>raises the transient error twice, then returns \<open>{"ok": 1}\<close>; has a \<open>__name__\<close>\<close>
  "mock_find =
     PyObj LNone [(''__name__'', plain (LStr ''find'') True)] []
       (Some (scripted [reconnecting, reconnecting] (Inr ok_result))) True"

definition mock_internal :: "nat pyval" where
  "mock_internal = PyObj LNone [] [] (Some (scripted [] (Inr (plain LNone False)))) True"

definition mock_database :: "nat pyval" where
  \<comment> \<open>a sub-resource handle: invocable, as pymongo's handles are\<close>
  "mock_database =
     PyObj LNone [(''find'', mock_find)] []
       (Some (scripted [] (Inl (TypeError ''Database object is not callable'')))) True"

definition mock_connection :: "nat pyval" where
  \<comment> \<open>a connection that is false in a boolean context and whose own call is reconnecting\<close>
  "mock_connection =
     PyObj LNone
       [(''find'', mock_find), (''_internal'', mock_internal), (''host'', plain (LStr ''localhost'') True),
        (''conn'', plain (LInt 7) True), (''__doc__'', plain (LStr ''Connection to MongoDB.'') True)]
       [(LStr ''test'', mock_database), (LStr ''port'', plain (LInt 27017) True)]
       (Some (scripted [] reconnecting)) False"


definition mock_root :: "nat pyval" where
  \<comment> \<open>a root type with a public method, a private method and a plain attribute\<close>
  "mock_root =
     PyObj LNone
       [(''find'', mock_find), (''_internal'', mock_internal), (''name'', plain (LStr ''c'') True)]
       [] None True"



definition idle :: "nat world" where
  "idle = \<lparr>warnings = [], sleeps = [], trace = [], ext = 0\<rparr>"


section \<open>The retry loop\<close>

lemma state_after_last:
  "state_after call a (Suc n) s = snd (call a (state_after call a n s))"
  by (induction n arbitrary: s) simp_all

lemma outcome_0: "outcome call a 0 s = fst (call a s)"
  by (simp add: outcome_def)

lemma outcome_Suc: "outcome call a (Suc n) s = outcome call a n (snd (call a s))"
  by (simp add: outcome_def)

text \<open>
  While the calls raise the transient error the loop only moves on: after \<open>j\<close> such
  calls it stands at the \<open>j\<close>-th remaining index, and for each index passed it has
  called, then warned, then slept, in that order.
\<close>

lemma attempts_transient_prefix:
  "j \<le> length idx \<Longrightarrow> (\<forall>i<j. transient (outcome call a i (ext w))) \<Longrightarrow>
   attempts idx call a w =
   attempts (drop j idx) call a
     (w\<lparr>warnings := warnings w @ map retry_warning (take j idx),
        sleeps := sleeps w @ map (\<lambda>i. 2 ^ i) (take j idx),
        trace := trace w @
          concat (map (\<lambda>i. [Called, Warned (retry_warning i), Slept (2 ^ i)]) (take j idx)),
        ext := state_after call a j (ext w)\<rparr>)"
proof (induction idx arbitrary: j w)
  case Nil
  then show ?case by simp
next
  case (Cons i rest)
  show ?case
  proof (cases j)
    case 0
    then show ?thesis by simp
  next
    case (Suc j')
    from Cons.prems Suc have len: "j' \<le> length rest" by simp
    from Cons.prems(2) Suc have first: "transient (fst (call a (ext w)))"
      using outcome_0 [of call a "ext w"] by auto
    obtain r s' where call: "call a (ext w) = (r, s')" by (cases "call a (ext w)")
    with first obtain e where r: "r = Inl e" and e: "is_AutoReconnect e"
      by (cases r) auto
    let ?w' = "time_sleep (2 ^ i) (logger_warning (retry_warning i)
                 (w\<lparr>trace := trace w @ [Called], ext := s'\<rparr>))"
    have step: "attempts (i # rest) call a w = attempts rest call a ?w'"
      using call r e by (simp add: run_def)
    have ext': "ext ?w' = s'" by (simp add: time_sleep_def logger_warning_def)
    have later: "\<forall>k<j'. transient (outcome call a k (ext ?w'))"
    proof (intro allI impI)
      fix k assume "k < j'"
      then have "Suc k < j" using Suc by simp
      with Cons.prems(2) have "transient (outcome call a (Suc k) (ext w))" by blast
      then show "transient (outcome call a k (ext ?w'))"
        using call by (simp add: outcome_Suc ext')
    qed
    have "attempts rest call a ?w' =
          attempts (drop j' rest) call a
            (?w'\<lparr>warnings := warnings ?w' @ map retry_warning (take j' rest),
                 sleeps := sleeps ?w' @ map (\<lambda>i. 2 ^ i) (take j' rest),
                 trace := trace ?w' @
                   concat (map (\<lambda>i. [Called, Warned (retry_warning i), Slept (2 ^ i)]) (take j' rest)),
                 ext := state_after call a j' (ext ?w')\<rparr>)"
      by (rule Cons.IH [OF len later])
    then show ?thesis
      using step Suc call by (simp add: time_sleep_def logger_warning_def)
  qed
qed

text \<open>
  The call that ends the loop: the first one that does not raise the transient error, or
  the fifth whatever it does. Its outcome is the outcome of the wrapper, and it is the last
  thing the wrapper does.
\<close>

lemma safe_mongocall_settles:
  assumes "j \<le> 4"
    and "\<forall>i<j. transient (outcome call a i (ext w))"
    and "j < 4 \<Longrightarrow> \<not> transient (outcome call a j (ext w))"
  shows "safe_mongocall call a w =
         (outcome call a j (ext w),
          w\<lparr>warnings := warnings w @ map retry_warning [0..<j],
            sleeps := sleeps w @ map (\<lambda>i. 2 ^ i) [0..<j],
            trace := trace w @
              concat (map (\<lambda>i. [Called, Warned (retry_warning i), Slept (2 ^ i)]) [0..<j]) @ [Called],
            ext := state_after call a (Suc j) (ext w)\<rparr>)"
proof -
  let ?w = "w\<lparr>warnings := warnings w @ map retry_warning [0..<j],
               sleeps := sleeps w @ map (\<lambda>i. 2 ^ i) [0..<j],
               trace := trace w @
                 concat (map (\<lambda>i. [Called, Warned (retry_warning i), Slept (2 ^ i)]) [0..<j]),
               ext := state_after call a j (ext w)\<rparr>"
  have "safe_mongocall call a w = attempts (drop j [0..<4]) call a
          (w\<lparr>warnings := warnings w @ map retry_warning (take j [0..<4]),
             sleeps := sleeps w @ map (\<lambda>i. 2 ^ i) (take j [0..<4]),
             trace := trace w @
               concat (map (\<lambda>i. [Called, Warned (retry_warning i), Slept (2 ^ i)]) (take j [0..<4])),
             ext := state_after call a j (ext w)\<rparr>)"
    unfolding safe_mongocall_def py_range_def
    using assms(1,2) by (intro attempts_transient_prefix) simp_all
  then have prefix: "safe_mongocall call a w = attempts [j..<4] call a ?w"
    using assms(1) by simp
  obtain r s' where call: "call a (state_after call a j (ext w)) = (r, s')"
    by (cases "call a (state_after call a j (ext w))")
  then have r: "outcome call a j (ext w) = r" by (simp add: outcome_def)
  show ?thesis
  proof (cases "j < 4")
    case True
    then have idx: "[j..<4] = j # [Suc j..<4]" by (simp add: upt_conv_Cons)
    from assms(3) True r have "\<not> transient r" by simp
    then have "attempts (j # [Suc j..<4]) call a ?w =
               (r, ?w\<lparr>trace := trace ?w @ [Called], ext := s'\<rparr>)"
      using call by (cases r) (simp_all add: run_def)
    then show ?thesis
      using prefix idx r call state_after_last [of call a j "ext w"] by simp
  next
    case False
    with assms(1) have "j = 4" by simp
    then have "[j..<4] = []" by simp
    then have "attempts [j..<4] call a ?w = (r, ?w\<lparr>trace := trace ?w @ [Called], ext := s'\<rparr>)"
      using call by (simp add: run_def)
    then show ?thesis
      using prefix r call state_after_last [of call a j "ext w"] by simp
  qed
qed

text \<open>
  C1. An operation that raises the transient error at every call. What the wrapper does
  is, in this order: four times a call, the warning with the number of the attempt ("try
  0" to "try 3") and a sleep of 1, 2, 4 and 8; then a fifth call, after which it neither
  warns nor sleeps nor calls again. The operation has been called five times, and the
  outcome of the wrapper is the outcome of the fifth call, the error as it was raised.
\<close>

theorem retry_exhaustion:
  assumes "\<forall>i. transient (outcome call a i (ext w))"
  shows "safe_mongocall call a w =
         (outcome call a 4 (ext w),
          w\<lparr>warnings := warnings w @
               [''AutoReconnecting, try 0'', ''AutoReconnecting, try 1'',
                ''AutoReconnecting, try 2'', ''AutoReconnecting, try 3''],
            sleeps := sleeps w @ [2 ^ 0, 2 ^ 1, 2 ^ 2, 2 ^ 3],
            trace := trace w @
               [Called, Warned ''AutoReconnecting, try 0'', Slept (2 ^ 0),
                Called, Warned ''AutoReconnecting, try 1'', Slept (2 ^ 1),
                Called, Warned ''AutoReconnecting, try 2'', Slept (2 ^ 2),
                Called, Warned ''AutoReconnecting, try 3'', Slept (2 ^ 3),
                Called],
            ext := state_after call a 5 (ext w)\<rparr>)"
proof -
  have idx: "[0..<4] = [0, 1, 2, 3]" by (simp add: upt_rec)
  have five: "(5::nat) = Suc 4" by simp
  have "safe_mongocall call a w =
         (outcome call a 4 (ext w),
          w\<lparr>warnings := warnings w @ map retry_warning [0..<4],
            sleeps := sleeps w @ map (\<lambda>i. 2 ^ i) [0..<4],
            trace := trace w @
              concat (map (\<lambda>i. [Called, Warned (retry_warning i), Slept (2 ^ i)]) [0..<4]) @ [Called],
            ext := state_after call a (Suc 4) (ext w)\<rparr>)"
    using assms by (intro safe_mongocall_settles) simp_all
  then show ?thesis
    unfolding idx five by (simp add: retry_warning_def str_of_nat.simps)
qed

theorem retry_exhaustion_witness:
  "safe_mongocall (scripted [] reconnecting) ([], []) idle =
   (Inl (AutoReconnect ''not master''),
    \<lparr>warnings = [''AutoReconnecting, try 0'', ''AutoReconnecting, try 1'',
                 ''AutoReconnecting, try 2'', ''AutoReconnecting, try 3''],
     sleeps = [1, 2, 4, 8],
     trace = [Called, Warned ''AutoReconnecting, try 0'', Slept 1,
              Called, Warned ''AutoReconnecting, try 1'', Slept 2,
              Called, Warned ''AutoReconnecting, try 2'', Slept 4,
              Called, Warned ''AutoReconnecting, try 3'', Slept 8,
              Called],
     ext = 5\<rparr>)"
proof -
  have always: "\<forall>i. transient (outcome (scripted [] reconnecting) ([], []) i (ext idle))"
    by (simp add: outcome_def scripted_def reconnecting_def)
  have calls: "state_after (scripted [] reconnecting) ([], []) 5 0 = 5"
    by (simp add: numeral_eq_Suc scripted_def)
  show ?thesis
    using retry_exhaustion [OF always] calls
    by (simp add: outcome_def scripted_def reconnecting_def idle_def)
qed

text \<open>
  C2. An operation that raises the transient error at its first \<open>k\<close> calls, \<open>k\<close> at most
  3, and returns \<open>r\<close> at the next: the wrapper returns \<open>r\<close>, having logged the \<open>k\<close>
  warnings "try 0" to "try k-1" and slept \<open>2^0\<close>, ..., \<open>2^(k-1)\<close> in that order, each
  after the call that failed and before the next, after \<open>k + 1\<close> calls; with \<open>k = 0\<close> the
  world changes by the one call only.
\<close>

theorem retry_success:
  assumes "k \<le> 3"
    and "\<forall>i<k. transient (outcome call a i (ext w))"
    and "outcome call a k (ext w) = Inr r"
  shows "safe_mongocall call a w =
         (Inr r,
          w\<lparr>warnings := warnings w @ map retry_warning [0..<k],
            sleeps := sleeps w @ map (\<lambda>i. 2 ^ i) [0..<k],
            trace := trace w @
              concat (map (\<lambda>i. [Called, Warned (retry_warning i), Slept (2 ^ i)]) [0..<k]) @ [Called],
            ext := state_after call a (Suc k) (ext w)\<rparr>)
       \<and> (k = 0 \<longrightarrow>
            safe_mongocall call a w =
            (Inr r, w\<lparr>trace := trace w @ [Called], ext := snd (call a (ext w))\<rparr>))"
proof -
  from assms(1) have "k \<le> 4" by simp
  moreover from assms(3) have "\<not> transient (outcome call a k (ext w))" by simp
  ultimately have "safe_mongocall call a w =
         (outcome call a k (ext w),
          w\<lparr>warnings := warnings w @ map retry_warning [0..<k],
            sleeps := sleeps w @ map (\<lambda>i. 2 ^ i) [0..<k],
            trace := trace w @
              concat (map (\<lambda>i. [Called, Warned (retry_warning i), Slept (2 ^ i)]) [0..<k]) @ [Called],
            ext := state_after call a (Suc k) (ext w)\<rparr>)"
    using assms(2) by (intro safe_mongocall_settles) simp_all
  with assms(3) show ?thesis by auto
qed

theorem retry_success_witness:
  "safe_mongocall (scripted [reconnecting, reconnecting] (Inr ok_result)) ([], []) idle =
   (Inr ok_result,
    \<lparr>warnings = [''AutoReconnecting, try 0'', ''AutoReconnecting, try 1''],
     sleeps = [1, 2],
     trace = [Called, Warned ''AutoReconnecting, try 0'', Slept 1,
              Called, Warned ''AutoReconnecting, try 1'', Slept 2,
              Called],
     ext = 3\<rparr>)
   \<and> safe_mongocall (scripted [] (Inr ok_result)) ([], []) idle =
     (Inr ok_result, \<lparr>warnings = [], sleeps = [], trace = [Called], ext = 1\<rparr>)"
proof -
  let ?twice = "scripted [reconnecting, reconnecting] (Inr ok_result)"
  let ?never = "scripted [] (Inr ok_result)"
  have two: "(2::nat) \<le> 3" and none: "(0::nat) \<le> 3" by simp_all
  have fails: "\<forall>i<2. transient (outcome ?twice ([], []) i (ext idle))"
    by (simp add: outcome_def scripted_def reconnecting_def idle_def numeral_2_eq_2 less_Suc_eq)
  have then_ok: "outcome ?twice ([], []) 2 (ext idle) = Inr ok_result"
    by (simp add: outcome_def scripted_def idle_def numeral_2_eq_2)
  have no_fail: "\<forall>i<0. transient (outcome ?never ([], []) i (ext idle))" by simp
  have ok: "outcome ?never ([], []) 0 (ext idle) = Inr ok_result"
    by (simp add: outcome_def scripted_def)
  show ?thesis
    using retry_success [OF two fails then_ok] retry_success [OF none no_fail ok]
    by (simp add: scripted_def idle_def numeral_2_eq_2 retry_warning_def str_of_nat.simps)
qed

text \<open>
  C3. An error that is not the transient one, raised at any call of the sequence (the
  first, or one that follows \<open>j\<close> transient errors, up to the fifth call): it is the
  outcome of the wrapper as it was raised, the call that raised it is the last thing the
  wrapper does, and no warning and no delay is added for it, only those of the \<open>j\<close>
  transient errors before.
\<close>

theorem non_transient_immediate:
  assumes "j \<le> 4"
    and "\<forall>i<j. transient (outcome call a i (ext w))"
    and "outcome call a j (ext w) = Inl e"
    and "\<not> is_AutoReconnect e"
  shows "safe_mongocall call a w =
         (Inl e,
          w\<lparr>warnings := warnings w @ map retry_warning [0..<j],
            sleeps := sleeps w @ map (\<lambda>i. 2 ^ i) [0..<j],
            trace := trace w @
              concat (map (\<lambda>i. [Called, Warned (retry_warning i), Slept (2 ^ i)]) [0..<j]) @ [Called],
            ext := state_after call a (Suc j) (ext w)\<rparr>)
       \<and> (j = 0 \<longrightarrow>
            safe_mongocall call a w =
            (Inl e, w\<lparr>trace := trace w @ [Called], ext := snd (call a (ext w))\<rparr>))"
proof -
  from assms(3,4) have "\<not> transient (outcome call a j (ext w))" by simp
  then have "safe_mongocall call a w =
         (outcome call a j (ext w),
          w\<lparr>warnings := warnings w @ map retry_warning [0..<j],
            sleeps := sleeps w @ map (\<lambda>i. 2 ^ i) [0..<j],
            trace := trace w @
              concat (map (\<lambda>i. [Called, Warned (retry_warning i), Slept (2 ^ i)]) [0..<j]) @ [Called],
            ext := state_after call a (Suc j) (ext w)\<rparr>)"
    using assms(1,2) by (intro safe_mongocall_settles) simp_all
  with assms(3) show ?thesis by auto
qed

theorem non_transient_immediate_witness:
  "safe_mongocall (scripted [] (Inl (OperationFailure ''unauthorized'') :: exn + nat pyval))
     ([], []) idle =
   (Inl (OperationFailure ''unauthorized''),
    \<lparr>warnings = [], sleeps = [], trace = [Called], ext = 1\<rparr>)
   \<and> safe_mongocall (scripted [reconnecting] (Inl (OperationFailure ''unauthorized''))) ([], []) idle =
     (Inl (OperationFailure ''unauthorized''),
      \<lparr>warnings = [''AutoReconnecting, try 0''], sleeps = [1],
       trace = [Called, Warned ''AutoReconnecting, try 0'', Slept 1, Called], ext = 2\<rparr>)"
proof -
  let ?e = "OperationFailure ''unauthorized''"
  let ?first = "scripted [] (Inl ?e :: exn + nat pyval)"
  let ?second = "scripted [reconnecting] (Inl ?e)"
  have zero: "(0::nat) \<le> 4" and one: "(1::nat) \<le> 4" by simp_all
  have other: "\<not> is_AutoReconnect ?e" by simp
  have none: "\<forall>i<0. transient (outcome ?first ([], []) i (ext idle))" by simp
  have at0: "outcome ?first ([], []) 0 (ext idle) = Inl ?e"
    by (simp add: outcome_def scripted_def)
  have once: "\<forall>i<1. transient (outcome ?second ([], []) i (ext idle))"
    by (simp add: outcome_def scripted_def reconnecting_def idle_def)
  have at1: "outcome ?second ([], []) 1 (ext idle) = Inl ?e"
    by (simp add: outcome_def scripted_def idle_def)
  show ?thesis
    using non_transient_immediate [OF zero none at0 other]
      non_transient_immediate [OF one once at1 other]
    by (simp add: scripted_def idle_def retry_warning_def str_of_nat.simps)
qed

section \<open>The retry loop does not read its own history\<close>




section \<open>The operation classifier\<close>

lemma py_getattr_listed:
  assumes "name \<in> set (py_dir obj)"
  shows "\<exists>v. py_getattr obj name = Inr v"
proof -
  from assms have "name \<in> fst ` set (members obj)" by (simp add: py_dir_def)
  then obtain v where "map_of (members obj) name = Some v"
    by (metis map_of_eq_None_iff not_Some_eq)
  then show ?thesis by (simp add: py_getattr_def)
qed

lemma py_getattr_in_dir:
  "py_getattr obj name = Inr v \<Longrightarrow> name \<in> set (py_dir obj)"
  by (auto simp: py_getattr_def py_dir_def split: option.splits dest: map_of_SomeD intro: rev_image_eqI)

lemma public_callable_iff:
  "public_callable obj name \<longleftrightarrow>
   name \<in> set (py_dir obj) \<and> \<not> startswith name ''_'' \<and>
   (\<exists>v. py_getattr obj name = Inr v \<and> hasattr_call v)"
  by (auto simp: public_callable_def split: sum.splits)

lemma public_callables_filter:
  "set names \<subseteq> set (py_dir obj) \<Longrightarrow>
   public_callables obj names = Inr (filter (public_callable obj) names)"
proof (induction names)
  case Nil
  then show ?case by simp
next
  case (Cons attr rest)
  then have listed: "attr \<in> set (py_dir obj)" and rest: "set rest \<subseteq> set (py_dir obj)"
    by simp_all
  from listed obtain v where v: "py_getattr obj attr = Inr v"
    using py_getattr_listed by blast
  from Cons.IH [OF rest] listed v show ?case
    by (simp add: public_callable_def)
qed

lemma collect_methods_concat:
  "collect_methods objs =
   Inr (concat (map (\<lambda>obj. filter (public_callable obj) (py_dir obj)) objs))"
  by (induction objs) (simp_all add: public_callables_filter)

text \<open>
  C6. For a non-empty list of root types \<open>get_methods\<close> returns a set, and that set is
  exactly the names that some root type lists, that do not begin with \<open>_\<close> and whose
  value there is invocable. So \<open>_internal\<close> is never in it, and \<open>find\<close> is in it as soon
  as one root type has an invocable \<open>find\<close>.
\<close>

theorem operation_classifier:
  assumes "objs \<noteq> []"
  shows "\<exists>ops. get_methods objs = Inr ops
       \<and> ops = {name. \<exists>obj \<in> set objs. name \<in> set (py_dir obj) \<and> \<not> startswith name ''_'' \<and>
                   (\<exists>v. py_getattr obj name = Inr v \<and> hasattr_call v)}
       \<and> ''_internal'' \<notin> ops
       \<and> (\<forall>obj \<in> set objs. \<forall>f. py_getattr obj ''find'' = Inr f \<and> hasattr_call f \<longrightarrow> ''find'' \<in> ops)"
proof -
  let ?ops = "{name. \<exists>obj \<in> set objs. public_callable obj name}"
  have "get_methods objs = Inr ?ops"
    by (auto simp: get_methods_def collect_methods_concat public_callable_def)
  moreover have "?ops = {name. \<exists>obj \<in> set objs. name \<in> set (py_dir obj) \<and> \<not> startswith name ''_'' \<and>
                   (\<exists>v. py_getattr obj name = Inr v \<and> hasattr_call v)}"
    by (simp add: public_callable_iff)
  moreover have "''_internal'' \<notin> ?ops"
    by (simp add: public_callable_iff startswith_def)
  moreover have "\<forall>obj \<in> set objs. \<forall>f. py_getattr obj ''find'' = Inr f \<and> hasattr_call f \<longrightarrow> ''find'' \<in> ?ops"
    using py_getattr_in_dir by (fastforce simp: public_callable_iff startswith_def)
  ultimately show ?thesis by blast
qed

theorem operation_classifier_witness:
  "get_methods [mock_root] = Inr {''find''}
   \<and> (\<exists>ops. get_methods [mock_root] = Inr ops \<and> ''find'' \<in> ops \<and> ''_internal'' \<notin> ops)"
proof -
  have nonempty: "[mock_root] \<noteq> []" by simp
  have find: "py_getattr mock_root ''find'' = Inr mock_find \<and> hasattr_call mock_find"
    by (simp add: mock_root_def py_getattr_def hasattr_call_def mock_find_def)
  from operation_classifier [OF nonempty] obtain ops where
    ops: "get_methods [mock_root] = Inr ops" and internal: "''_internal'' \<notin> ops" and
    found: "\<forall>obj \<in> set [mock_root]. \<forall>f. py_getattr obj ''find'' = Inr f \<and> hasattr_call f \<longrightarrow> ''find'' \<in> ops"
    by blast
  from found find have "''find'' \<in> ops" by simp
  moreover have "get_methods [mock_root] = Inr {''find''}"
    by (simp add: get_methods_def mock_root_def py_dir_def startswith_def py_getattr_def
        hasattr_call_def mock_find_def mock_internal_def plain_def)
  ultimately show ?thesis using ops internal by blast
qed


section \<open>ReconnectProxy\<close>

subsection \<open>Subscripts\<close>

text \<open>
  The two ways out of \<open>__getitem__\<close> for an entry that exists: an entry that is not
  invocable is returned as it is; for an invocable one the name \<open>MongoProxy\<close> is
  evaluated, which the module does not bind.
\<close>

lemma ReconnectProxy_getitem_cases:
  "ReconnectProxy_getitem c key =
     (case py_getitem c key of
        Inl e \<Rightarrow> Inl e
      | Inr item \<Rightarrow> if hasattr_call item then Inl (NameError ''MongoProxy'') else Inr (Raw item))"
  by (simp add: ReconnectProxy_getitem_def instantiate_def module_classes_def split: sum.splits)

text \<open>
  C4. Indexing the proxy of the mock connection with \<open>'test'\<close>, whose entry is the
  invocable database handle: the docstring of \<open>__getitem__\<close> promises a proxy around the
  handle, the access raises \<open>NameError\<close> on \<open>MongoProxy\<close> instead.
\<close>

theorem getitem_invocable_raises:
  "py_getitem mock_connection (LStr ''test'') = Inr mock_database
   \<and> hasattr_call mock_database
   \<and> ReconnectProxy_getitem mock_connection (LStr ''test'') = Inl (NameError ''MongoProxy'')
   \<and> ReconnectProxy_getitem mock_connection (LStr ''test'') \<noteq> Inr (ReconnectProxy mock_database)"
  by (simp add: ReconnectProxy_getitem_def py_getitem_def mock_connection_def hasattr_call_def
      mock_database_def instantiate_def module_classes_def)

subsection \<open>Attributes\<close>

text \<open>
  C5 does not hold for every name. The names the proxy has itself never reach
  \<open>__getattr__\<close>: \<open>conn\<close> is the wrapped connection, not the connection's member
  \<open>conn\<close>, and \<open>__doc__\<close> is the docstring of the proxy class, not the connection's.
\<close>

theorem getattr_own_name_counterexample:
  "py_getattr mock_connection ''conn'' = Inr (plain (LInt 7) True)
   \<and> pyref_getattr [] {''find''} (ReconnectProxy mock_connection) ''conn'' =
       Inr (Value (Raw mock_connection))
   \<and> Raw mock_connection \<noteq> Raw (plain (LInt 7) True)
   \<and> py_getattr mock_connection ''__doc__'' = Inr (plain (LStr ''Connection to MongoDB.'') True)
   \<and> pyref_getattr [] {''find''} (ReconnectProxy mock_connection) ''__doc__'' =
       Inr (Class_member ''__doc__'')"
  by (simp add: py_getattr_def mock_connection_def pyref_getattr_def default_lookup_def plain_def
      ReconnectProxy_members_def)

text \<open>
  C5, amended to the names that the proxy does not have itself (that is, other than
  \<open>conn\<close>, the names bound in the class body and the names every object has). The access resolves the
  member of the wrapped object, and an error of that resolution is the error of the access;
  an invocable member whose name is in the operation set comes back as an \<open>Executable\<close>
  around it, any other member as it is. For a name outside the operation set the access is
  the direct access on the wrapped object.
\<close>

theorem getattr_classifies:
  assumes "name \<noteq> ''conn''"
    and "name \<notin> set ReconnectProxy_members"
    and "name \<notin> set builtin"
  shows "pyref_getattr builtin methods (ReconnectProxy c) name =
           (case py_getattr c name of
              Inl e \<Rightarrow> Inl e
            | Inr attr \<Rightarrow>
                if hasattr_call attr \<and> name \<in> methods then Inr (Value (Executable attr))
                else Inr (Value (Raw attr)))
       \<and> (name \<notin> methods \<longrightarrow>
            pyref_getattr builtin methods (ReconnectProxy c) name =
            pyref_getattr builtin methods (Raw c) name)"
  using assms
  by (simp add: pyref_getattr_def default_lookup_def ReconnectProxy_getattr_def instantiate_def
      module_classes_def split: sum.splits)

theorem getattr_classifies_witness:
  "pyref_getattr [''__class__'', ''__dict__''] {''find''} (ReconnectProxy mock_connection) ''find'' =
     Inr (Value (Executable mock_find))
   \<and> pyref_getattr [''__class__'', ''__dict__''] {''find''} (ReconnectProxy mock_connection) ''_internal'' =
     Inr (Value (Raw mock_internal))
   \<and> pyref_getattr [''__class__'', ''__dict__''] {''find''} (ReconnectProxy mock_connection) ''host'' =
     Inr (Value (Raw (plain (LStr ''localhost'') True)))
   \<and> pyref_getattr [''__class__'', ''__dict__''] {''find''} (ReconnectProxy mock_connection) ''drop'' =
     Inl (AttributeError ''drop'')"
proof -
  let ?builtin = "[''__class__'', ''__dict__'']"
  have other: "''find'' \<noteq> ''conn''" "''_internal'' \<noteq> ''conn''" "''host'' \<noteq> ''conn''"
      "''drop'' \<noteq> ''conn''"
    by simp_all
  have cls: "''find'' \<notin> set ReconnectProxy_members" "''_internal'' \<notin> set ReconnectProxy_members"
      "''host'' \<notin> set ReconnectProxy_members" "''drop'' \<notin> set ReconnectProxy_members"
    by (simp_all add: ReconnectProxy_members_def)
  have obj: "''find'' \<notin> set ?builtin" "''_internal'' \<notin> set ?builtin" "''host'' \<notin> set ?builtin"
      "''drop'' \<notin> set ?builtin"
    by simp_all
  show ?thesis
    using getattr_classifies [OF other(1) cls(1) obj(1), of "{''find''}" mock_connection]
      getattr_classifies [OF other(2) cls(2) obj(2), of "{''find''}" mock_connection]
      getattr_classifies [OF other(3) cls(3) obj(3), of "{''find''}" mock_connection]
      getattr_classifies [OF other(4) cls(4) obj(4), of "{''find''}" mock_connection]
    by (simp add: py_getattr_def mock_connection_def hasattr_call_def mock_find_def mock_internal_def
        plain_def)
qed

subsection \<open>Truth value and direct invocation\<close>

text \<open>
  C7. In a boolean context a proxy is true, whatever the wrapped object is; the mock
  connection is false on its own and true behind the proxy.
\<close>

theorem proxy_always_true:
  "pyref_bool (ReconnectProxy c) \<and> ReconnectProxy_bool c"
  by (simp add: pyref_bool_def ReconnectProxy_bool_def)

theorem proxy_always_true_witness:
  "\<not> pyref_bool (Raw mock_connection) \<and> pyref_bool (ReconnectProxy mock_connection)"
  using proxy_always_true [of mock_connection]
  by (simp add: pyref_bool_def mock_connection_def)

text \<open>
  C8. Calling the proxy is one call of the wrapped object with the same arguments: the
  outcome is that call's outcome, returned or raised, the external state is the one that
  call leaves, the call is all the proxy does, and no warning and no delay is added, also
  when the call raises the transient error.
\<close>

theorem proxy_call_forwards:
  "pyref_call (ReconnectProxy c) a w =
     (fst (py_call c a (ext w)),
      w\<lparr>trace := trace w @ [Called], ext := snd (py_call c a (ext w))\<rparr>)
   \<and> ReconnectProxy_call c a w = pyref_call (Raw c) a w"
  by (simp add: pyref_call_def ReconnectProxy_call_def run_def split: prod.splits)

theorem proxy_call_forwards_witness:
  "pyref_call (ReconnectProxy mock_connection) ([LInt 1], [(''safe'', LBool True)]) idle =
     (Inl (AutoReconnect ''not master''),
      \<lparr>warnings = [], sleeps = [], trace = [Called], ext = 1\<rparr>)
   \<and> py_call mock_connection ([LInt 1], [(''safe'', LBool True)]) 0 =
     (Inl (AutoReconnect ''not master''), 1)"
  using proxy_call_forwards [of mock_connection "([LInt 1], [(''safe'', LBool True)])" idle]
  by (simp add: py_call_def mock_connection_def scripted_def reconnecting_def idle_def)

section \<open>Executable\<close>






end
